theory Spec2Isabelle
  imports Complex_Main "HOL-Library.Multiset" "HOL-Library.AList"
begin

section \<open>Command scheduling: \<open>dglab_controller.py\<close>\<close>

subsection \<open>Data model\<close>

text \<open>
  \<open>CommandType\<close> lives in \<open>command_types.py\<close>, which is not among the sources; the
  controller uses its four members and, for ordering, the numeric \<open>.value\<close> of a member.
  The members are a datatype here and the \<open>.value\<close> table is a parameter
  (\<open>rank :: CommandType \<Rightarrow> int\<close>) of every definition that reads it.
\<close>

datatype CommandType = GUI_COMMAND | PANEL_COMMAND | INTERACTION_COMMAND | TON_COMMAND

text \<open>\<open>command_type.name\<close>, as used by the f-string of \<open>add_command\<close>.\<close>

fun CommandType_name :: "CommandType \<Rightarrow> string" where
  "CommandType_name GUI_COMMAND = ''GUI_COMMAND''"
| "CommandType_name PANEL_COMMAND = ''PANEL_COMMAND''"
| "CommandType_name INTERACTION_COMMAND = ''INTERACTION_COMMAND''"
| "CommandType_name TON_COMMAND = ''TON_COMMAND''"

datatype Channel = Channel_A | Channel_B

datatype StrengthOperationType = SET_TO | INCREASE | DECREASE | SET_PULSE_MODE

text \<open>
  Timestamps and cooldowns are Python floats read from \<open>time.time()\<close>; they are modelled
  as reals (comparison and subtraction without rounding). Strength values are integers.
\<close>

record ChannelCommand =
  command_type :: CommandType
  channel :: Channel
  operation :: StrengthOperationType
  cmd_value :: int
  source_id :: string
  timestamp :: real

text \<open>
  \<open>ChannelCommand.__init__\<close>: \<open>source_id or str(uuid.uuid4())\<close> and
  \<open>timestamp or time.time()\<close>. The values that \<open>uuid.uuid4()\<close> and \<open>time.time()\<close>
  would return are the parameters \<open>uuid4\<close> and \<open>clock\<close>; \<open>None\<close>, the empty string and
  \<open>0.0\<close> are the falsy arguments.
\<close>

definition new_ChannelCommand ::
  "string \<Rightarrow> real \<Rightarrow> CommandType \<Rightarrow> Channel \<Rightarrow> StrengthOperationType \<Rightarrow> int
     \<Rightarrow> string option \<Rightarrow> real option \<Rightarrow> ChannelCommand" where
  "new_ChannelCommand uuid4 clock ct ch opr v sid ts =
     \<lparr> command_type = ct, channel = ch, operation = opr, cmd_value = v,
       source_id = (case sid of None \<Rightarrow> uuid4 | Some s \<Rightarrow> if s = [] then uuid4 else s),
       timestamp = (case ts of None \<Rightarrow> clock | Some t \<Rightarrow> if t = 0 then clock else t) \<rparr>"

text \<open>\<open>ChannelCommand.__lt__\<close>.\<close>

definition ChannelCommand_lt ::
  "(CommandType \<Rightarrow> int) \<Rightarrow> ChannelCommand \<Rightarrow> ChannelCommand \<Rightarrow> bool" where
  "ChannelCommand_lt rank self other =
     (if rank (command_type self) \<noteq> rank (command_type other)
      then rank (command_type self) < rank (command_type other)
      else timestamp self < timestamp other)"

text \<open>\<open>StrengthData\<close> of the device library: the fields \<open>a\<close>, \<open>b\<close>, \<open>a_limit\<close>, \<open>b_limit\<close>.\<close>

record StrengthData =
  strength_a :: int
  strength_b :: int
  a_limit :: int
  b_limit :: int

text \<open>
  The device transport (\<open>self.client\<close>) is an external collaborator. It is modelled by the
  list of calls it has received; a call that fails raises into a handler that logs and
  changes nothing else, so the list of calls is all the controller's state can show.
\<close>

datatype client_call = Set_strength Channel StrengthOperationType int

record DGLabController =
  client :: "client_call list"
  last_strength :: "StrengthData option"
  pulse_mode_a :: int
  pulse_mode_b :: int
  command_queue :: "ChannelCommand list"
  command_sources :: "string \<rightharpoonup> real"
  enable_gui_commands :: bool
  enable_panel_commands :: bool
  enable_interaction_commands :: bool
  enable_interaction_mode_a :: bool
  enable_interaction_mode_b :: bool

text \<open>The fields as \<open>DGLabController.__init__\<close> sets them.\<close>

definition init_DGLabController :: DGLabController where
  "init_DGLabController =
     \<lparr> client = [], last_strength = None, pulse_mode_a = 0, pulse_mode_b = 0,
       command_queue = [], command_sources = Map.empty,
       enable_gui_commands = True, enable_panel_commands = True,
       enable_interaction_commands = True,
       enable_interaction_mode_a = False, enable_interaction_mode_b = False \<rparr>"

text \<open>\<open>self.source_cooldowns\<close>: the table of \<open>__init__\<close>, in seconds.\<close>

fun source_cooldowns :: "CommandType \<Rightarrow> real" where
  "source_cooldowns GUI_COMMAND = 0"
| "source_cooldowns PANEL_COMMAND = 0.1"
| "source_cooldowns INTERACTION_COMMAND = 0.05"
| "source_cooldowns TON_COMMAND = 0.2"

subsection \<open>The priority queue\<close>

text \<open>
  \<open>asyncio.PriorityQueue\<close> is the standard library's queue: \<open>put\<close> adds an entry and
  \<open>get\<close> removes an entry that is least under the entries' \<open>__lt__\<close>, suspending the
  consumer while the queue is empty. It is modelled by that contract over the list of
  pending entries: \<open>get\<close> scans for the first entry that no other entry is less than,
  using \<open>__lt__\<close> only, and is \<open>None\<close> on the empty queue (the consumer stays suspended).
  Which of several least entries the library returns is not specified; the scan returns the
  one put first, and no statement below depends on that choice.
\<close>

definition put :: "ChannelCommand \<Rightarrow> ChannelCommand list \<Rightarrow> ChannelCommand list" where
  "put item q = q @ [item]"

fun least_entry ::
  "(CommandType \<Rightarrow> int) \<Rightarrow> ChannelCommand \<Rightarrow> ChannelCommand list \<Rightarrow> ChannelCommand" where
  "least_entry rank m [] = m"
| "least_entry rank m (x # xs) =
     least_entry rank (if ChannelCommand_lt rank x m then x else m) xs"

definition get ::
  "(CommandType \<Rightarrow> int) \<Rightarrow> ChannelCommand list
     \<Rightarrow> (ChannelCommand \<times> ChannelCommand list) option" where
  "get rank q =
     (case q of [] \<Rightarrow> None
      | x # xs \<Rightarrow> let m = least_entry rank x xs in Some (m, remove1 m q))"

subsection \<open>Submission: \<open>add_command\<close>\<close>

text \<open>The ledger key \<open>f"{command_type.name}_{source_id or 'default'}"\<close>.\<close>

definition source_key :: "CommandType \<Rightarrow> string option \<Rightarrow> string" where
  "source_key ct sid =
     CommandType_name ct @ ''_'' @
       (case sid of None \<Rightarrow> ''default'' | Some s \<Rightarrow> if s = [] then ''default'' else s)"

text \<open>
  \<open>add_command\<close>; \<open>now\<close> is the reading of \<open>time.time()\<close> at its first line. A
  submission inside the cooldown returns with the controller unchanged; any other one
  writes the ledger entry and puts the new command into the queue.
\<close>

definition add_command ::
  "string \<Rightarrow> real \<Rightarrow> real \<Rightarrow> CommandType \<Rightarrow> Channel \<Rightarrow> StrengthOperationType \<Rightarrow> int
     \<Rightarrow> string option \<Rightarrow> DGLabController \<Rightarrow> DGLabController" where
  "add_command uuid4 clock now ct ch opr v sid self =
     (let key = source_key ct sid in
      if (case command_sources self key of
            None \<Rightarrow> False
          | Some last_time \<Rightarrow> now - last_time < source_cooldowns ct)
      then self
      else self\<lparr> command_sources := (command_sources self)(key \<mapsto> now),
                 command_queue :=
                   put (new_ChannelCommand uuid4 clock ct ch opr v sid (Some now))
                       (command_queue self) \<rparr>)"

subsection \<open>Execution: \<open>execute_command\<close> and the primitive operations\<close>

definition set_strength :: "Channel \<Rightarrow> int \<Rightarrow> DGLabController \<Rightarrow> DGLabController" where
  "set_strength ch v self = self\<lparr> client := client self @ [Set_strength ch SET_TO v] \<rparr>"

definition adjust_strength :: "Channel \<Rightarrow> int \<Rightarrow> DGLabController \<Rightarrow> DGLabController" where
  "adjust_strength ch delta self =
     (case last_strength self of
        None \<Rightarrow> self
      | Some ls \<Rightarrow>
          (case ch of
             Channel_A \<Rightarrow>
               (let new_strength = max 0 (min (a_limit ls) (strength_a ls + delta))
                in self\<lparr> client := client self @ [Set_strength Channel_A SET_TO new_strength] \<rparr>)
           | Channel_B \<Rightarrow>
               (let new_strength = max 0 (min (b_limit ls) (strength_b ls + delta))
                in self\<lparr> client := client self @ [Set_strength Channel_B SET_TO new_strength] \<rparr>)))"

text \<open>
  \<open>set_pulse_mode\<close> stores the mode; what follows the assignment (the log line and the
  GUI combo box) does not touch the controller's state.
\<close>

definition set_pulse_mode :: "Channel \<Rightarrow> int \<Rightarrow> DGLabController \<Rightarrow> DGLabController" where
  "set_pulse_mode ch mode self =
     (case ch of
        Channel_A \<Rightarrow> self\<lparr> pulse_mode_a := mode \<rparr>
      | Channel_B \<Rightarrow> self\<lparr> pulse_mode_b := mode \<rparr>)"

definition execute_command :: "ChannelCommand \<Rightarrow> DGLabController \<Rightarrow> DGLabController" where
  "execute_command command self =
     (case operation command of
        SET_TO \<Rightarrow> set_strength (channel command) (cmd_value command) self
      | INCREASE \<Rightarrow> adjust_strength (channel command) (cmd_value command) self
      | DECREASE \<Rightarrow> adjust_strength (channel command) (- cmd_value command) self
      | SET_PULSE_MODE \<Rightarrow> set_pulse_mode (channel command) (cmd_value command) self)"

subsection \<open>The dispatcher: \<open>process_commands\<close>\<close>

text \<open>
  One iteration of the \<open>while True\<close> loop. \<open>current_time\<close> is the reading of
  \<open>time.time()\<close> in that iteration. The result is \<open>None\<close> while the queue is empty (the
  loop is suspended in \<open>get\<close>); otherwise it is the command taken and the controller after
  the iteration. The \<open>if\<close>/\<open>elif\<close> chain over the command type is the \<open>case\<close>: a branch
  whose toggle is off executes nothing.
\<close>

definition process_command ::
  "(CommandType \<Rightarrow> int) \<Rightarrow> real \<Rightarrow> DGLabController
     \<Rightarrow> (ChannelCommand \<times> DGLabController) option" where
  "process_command rank current_time self0 =
     (case get rank (command_queue self0) of
        None \<Rightarrow> None
      | Some (command, q) \<Rightarrow>
          (let self = self0\<lparr> command_queue := q \<rparr>;
               last_command_time =
                 (case command_sources self (source_id command) of None \<Rightarrow> 0 | Some t \<Rightarrow> t);
               cooldown = source_cooldowns (command_type command)
           in if current_time - last_command_time < cooldown
              then Some (command, self)
              else
                (let self = self\<lparr> command_sources :=
                              (command_sources self)(source_id command \<mapsto> current_time) \<rparr>
                 in Some (command,
                      (case command_type command of
                         GUI_COMMAND \<Rightarrow>
                           if enable_gui_commands self then execute_command command self
                           else self
                       | PANEL_COMMAND \<Rightarrow>
                           if enable_panel_commands self then execute_command command self
                           else self
                       | INTERACTION_COMMAND \<Rightarrow>
                           if enable_interaction_commands self
                           then (if (channel command = Channel_A \<and> enable_interaction_mode_a self)
                                    \<or> (channel command = Channel_B \<and> enable_interaction_mode_b self)
                                 then execute_command command self
                                 else self)
                           else self
                       | TON_COMMAND \<Rightarrow> execute_command command self)))))"

text \<open>
  The loop, run for as many iterations as there are clock readings and stopped early when
  the queue is empty. It returns the commands in the order the loop took them, and the
  controller it leaves.
\<close>

fun process_commands ::
  "(CommandType \<Rightarrow> int) \<Rightarrow> real list \<Rightarrow> DGLabController
     \<Rightarrow> ChannelCommand list \<times> DGLabController" where
  "process_commands rank [] self = ([], self)"
| "process_commands rank (t # ts) self =
     (case process_command rank t self of
        None \<Rightarrow> ([], self)
      | Some (command, self') \<Rightarrow>
          (case process_commands rank ts self' of
             (commands, self'') \<Rightarrow> (command # commands, self'')))"

text \<open>
  The order of the queue, as the specification words it: class rank first, timestamp
  second, both ascending.
\<close>

definition served_before ::
  "(CommandType \<Rightarrow> int) \<Rightarrow> ChannelCommand \<Rightarrow> ChannelCommand \<Rightarrow> bool" where
  "served_before rank c d =
     (rank (command_type c) < rank (command_type d)
      \<or> (rank (command_type c) = rank (command_type d) \<and> timestamp c \<le> timestamp d))"

subsection \<open>Example data\<close>

text \<open>
  A rank table for the examples (the classes numbered in the order the specification
  lists them) and a command with fixed channel, operation, value and source.
\<close>

fun listed_rank :: "CommandType \<Rightarrow> int" where
  "listed_rank GUI_COMMAND = 1"
| "listed_rank PANEL_COMMAND = 2"
| "listed_rank INTERACTION_COMMAND = 3"
| "listed_rank TON_COMMAND = 4"

definition example_command :: "CommandType \<Rightarrow> real \<Rightarrow> ChannelCommand" where
  "example_command ct t =
     \<lparr> command_type = ct, channel = Channel_A, operation = SET_TO, cmd_value = 5,
       source_id = ''s'', timestamp = t \<rparr>"

section \<open>Event bus: \<open>plugin_system/event.py\<close>\<close>

datatype EventPriority = LOWEST | LOW | NORMAL | HIGH | HIGHEST | MONITOR

text \<open>The \<open>.value\<close> of each member of the enum.\<close>

fun EventPriority_value :: "EventPriority \<Rightarrow> nat" where
  "EventPriority_value LOWEST = 0"
| "EventPriority_value LOW = 1"
| "EventPriority_value NORMAL = 2"
| "EventPriority_value HIGH = 3"
| "EventPriority_value HIGHEST = 4"
| "EventPriority_value MONITOR = 5"

text \<open>
  A handler callable is modelled by its identity (what \<open>id(handler)\<close> returns, and what
  \<open>h.handler != handler\<close> compares); an owning plugin by \<open>id(plugin)\<close>, \<open>None\<close> when absent.
\<close>

record EventHandler =
  handler :: nat
  priority :: EventPriority
  plugin :: "nat option"

text \<open>\<open>EventHandler.__lt__\<close> (the other operand is always an \<open>EventHandler\<close> here).\<close>

definition EventHandler_lt :: "EventHandler \<Rightarrow> EventHandler \<Rightarrow> bool" where
  "EventHandler_lt self other =
     (EventPriority_value (priority self) < EventPriority_value (priority other))"

text \<open>
  \<open>list.sort()\<close>: Python's sort is stable and compares with \<open>__lt__\<close> only. It is
  modelled by the stable insertion sort over \<open>EventHandler_lt\<close>: an entry goes before
  the first later entry that is not less than it.
\<close>

fun sort_insert :: "EventHandler \<Rightarrow> EventHandler list \<Rightarrow> EventHandler list" where
  "sort_insert x [] = [x]"
| "sort_insert x (y # ys) =
     (if EventHandler_lt y x then y # sort_insert x ys else x # y # ys)"

definition list_sort :: "EventHandler list \<Rightarrow> EventHandler list" where
  "list_sort xs = foldr sort_insert xs []"

text \<open>
  \<open>Event\<close>: the name and the cancelled flag (the keyword payload \<open>args\<close> plays no part in
  dispatch and is left out).
\<close>

record Event =
  name :: string
  cancelled :: bool

definition new_Event :: "string \<Rightarrow> Event" where
  "new_Event n = \<lparr> name = n, cancelled = False \<rparr>"

definition cancel :: "Event \<Rightarrow> Event" where
  "cancel self = self\<lparr> cancelled := True \<rparr>"

definition is_cancelled :: "Event \<Rightarrow> bool" where
  "is_cancelled self = cancelled self"

text \<open>
  \<open>_event_handlers\<close> maps an event name to its list of handlers; \<open>_plugin_events\<close> maps
  a plugin to a dict from keys \<open>f"{event_name}_{id(handler)}"\<close> to handler objects. The
  inner dict is iterated, so it is an association list in insertion order.
\<close>

record EventManager =
  event_handlers :: "string \<rightharpoonup> EventHandler list"
  plugin_events :: "nat \<rightharpoonup> (string \<times> EventHandler) list"

definition init_EventManager :: EventManager where
  "init_EventManager = \<lparr> event_handlers = Map.empty, plugin_events = Map.empty \<rparr>"

text \<open>\<open>str(n)\<close> of a non-negative integer: its decimal digits.\<close>

function str_nat :: "nat \<Rightarrow> string" where
  "str_nat n =
     (if n < 10 then [''0123456789'' ! n]
      else str_nat (n div 10) @ [''0123456789'' ! (n mod 10)])"
  by pat_completeness auto
termination
  by (relation "measure id") auto

declare str_nat.simps [simp del]

definition event_key :: "string \<Rightarrow> nat \<Rightarrow> string" where
  "event_key event_name h = event_name @ ''_'' @ str_nat h"

definition register_event_handler ::
  "string \<Rightarrow> nat \<Rightarrow> EventPriority \<Rightarrow> nat option \<Rightarrow> EventManager \<Rightarrow> EventManager" where
  "register_event_handler event_name h prio plg self0 =
     (let handlers = (case event_handlers self0 event_name of None \<Rightarrow> [] | Some l \<Rightarrow> l);
          handler_obj = \<lparr> handler = h, priority = prio, plugin = plg \<rparr>;
          self = self0\<lparr> event_handlers :=
                   (event_handlers self0)(event_name \<mapsto> list_sort (handlers @ [handler_obj])) \<rparr>
      in case plg of
           None \<Rightarrow> self
         | Some plugin_id \<Rightarrow>
             (let d = (case plugin_events self plugin_id of None \<Rightarrow> [] | Some d \<Rightarrow> d)
              in self\<lparr> plugin_events :=
                   (plugin_events self)
                     (plugin_id \<mapsto> AList.update (event_key event_name h) handler_obj d) \<rparr>))"

text \<open>
  The list comprehension that drops a handler from one event's list, and the deletion of
  a list that became empty; \<open>unregister_event_handler\<close> and the loop body of
  \<open>unregister_plugin_events\<close> both do exactly this.
\<close>

definition remove_handler :: "string \<Rightarrow> nat \<Rightarrow> EventManager \<Rightarrow> EventManager" where
  "remove_handler event_name h self =
     (case event_handlers self event_name of
        None \<Rightarrow> self
      | Some l \<Rightarrow>
          (let l' = filter (\<lambda>x. handler x \<noteq> h) l
           in if l' = []
              then self\<lparr> event_handlers := (event_handlers self)(event_name := None) \<rparr>
              else self\<lparr> event_handlers := (event_handlers self)(event_name \<mapsto> l') \<rparr>))"

definition unregister_event_handler :: "string \<Rightarrow> nat \<Rightarrow> EventManager \<Rightarrow> EventManager" where
  "unregister_event_handler event_name h self = remove_handler event_name h self"

text \<open>\<open>event_key.split('_')[0]\<close>: the text before the first underscore.\<close>

definition split_first :: "string \<Rightarrow> string" where
  "split_first k = takeWhile (\<lambda>c. c \<noteq> CHR ''_'') k"

definition unregister_plugin_events :: "nat \<Rightarrow> EventManager \<Rightarrow> EventManager" where
  "unregister_plugin_events plugin_id self =
     (case plugin_events self plugin_id of
        None \<Rightarrow> self
      | Some d \<Rightarrow>
          (let self' = fold (\<lambda>(k, handler_obj). remove_handler (split_first k) (handler handler_obj))
                         d self
           in self'\<lparr> plugin_events := (plugin_events self')(plugin_id := None) \<rparr>))"

text \<open>
  What a handler does when called is a parameter \<open>call\<close>: the event as the handler with
  that identity leaves it. A handler that raises is caught inside the loop and logged, and
  the loop goes on with the event as it then is, so raising needs no branch of its own.
  \<open>run_handlers\<close> is one of the two \<open>for\<close> loops of \<open>emit\<close>; it returns the event and the
  handler objects it invoked, in order.
\<close>

fun run_handlers ::
  "(nat \<Rightarrow> Event \<Rightarrow> Event) \<Rightarrow> EventHandler list \<Rightarrow> Event \<Rightarrow> Event \<times> EventHandler list" where
  "run_handlers call [] event = (event, [])"
| "run_handlers call (handler_obj # rest) event =
     (if is_cancelled event then (event, [])
      else (case run_handlers call rest (call (handler handler_obj) event) of
              (event', called) \<Rightarrow> (event', handler_obj # called)))"

text \<open>
  \<open>emit\<close>: the handlers of the exact name, then those of \<open>"*"\<close>. The result is the event
  returned, the handlers invoked by the first loop and those invoked by the second.
\<close>

definition emit ::
  "(nat \<Rightarrow> Event \<Rightarrow> Event) \<Rightarrow> string \<Rightarrow> EventManager
     \<Rightarrow> Event \<times> EventHandler list \<times> EventHandler list" where
  "emit call event_name self =
     (case (case event_handlers self event_name of
              None \<Rightarrow> (new_Event event_name, [])
            | Some l \<Rightarrow> run_handlers call l (new_Event event_name)) of
        (event, called) \<Rightarrow>
          (case (case event_handlers self ''*'' of
                   None \<Rightarrow> (event, [])
                 | Some l \<Rightarrow> run_handlers call l event) of
             (event', called_wildcard) \<Rightarrow> (event', called, called_wildcard)))"

text \<open>A history of calls on the bus, applied in order to the empty manager.\<close>

datatype bus_call =
    Register string nat EventPriority "nat option"
  | Unregister string nat
  | Unregister_plugin nat

fun bus_apply :: "bus_call \<Rightarrow> EventManager \<Rightarrow> EventManager" where
  "bus_apply (Register n h p plg) em = register_event_handler n h p plg em"
| "bus_apply (Unregister n h) em = unregister_event_handler n h em"
| "bus_apply (Unregister_plugin plugin_id) em = unregister_plugin_events plugin_id em"

definition bus_after :: "bus_call list \<Rightarrow> EventManager" where
  "bus_after calls = fold bus_apply calls init_EventManager"

text \<open>Two handler behaviours: one that leaves every event alone, one that cancels.\<close>

definition quiet :: "nat \<Rightarrow> Event \<Rightarrow> Event" where
  "quiet h event = event"

definition cancelling :: "nat \<Rightarrow> nat \<Rightarrow> Event \<Rightarrow> Event" where
  "cancelling h0 h event = (if h = h0 then cancel event else event)"

section \<open>Plugin host: \<open>plugin_system/plugin.py\<close>, \<open>plugin_manager.py\<close>\<close>

text \<open>
  A plugin is its identity and its \<open>enabled\<close> flag. \<open>initialize\<close> and \<open>shutdown\<close> are
  abstract methods: what a call of them does is a parameter (it returns a value or
  raises). \<open>notify_plugin_enabled\<close> and \<open>notify_plugin_disabled\<close> create a task that emits
  the event; creating the task can itself raise (\<open>asyncio.create_task\<close> raises
  \<open>RuntimeError\<close> where no event loop is running), which is the parameter \<open>task_ok\<close>. The
  effects of a call are returned as a list of actions.

  \<open>_enable_plugin_async\<close> and \<open>disable_plugin\<close> of the manager run \<open>Plugin.enable\<close> and
  \<open>Plugin.disable\<close> through \<open>run_in_executor\<close>, in a worker thread, where no event loop is
  running: through the manager the run that occurs is the one with \<open>task_ok = False\<close>, in
  which the error is logged and no event is published. \<open>task_ok = True\<close> is a direct call of
  \<open>Plugin.enable\<close> or \<open>Plugin.disable\<close> on the thread of the event loop.
\<close>

record Plugin =
  plugin_id :: nat
  enabled :: bool

datatype 'a result = Return 'a | Raise

datatype action = Call_initialize | Call_shutdown | Emit_task string | Log_error

text \<open>\<open>Plugin.enable\<close>.\<close>

definition enable :: "bool result \<Rightarrow> bool \<Rightarrow> Plugin \<Rightarrow> bool \<times> action list \<times> Plugin" where
  "enable init task_ok self =
     (if \<not> enabled self then
        (case init of
           Raise \<Rightarrow> (False, [Call_initialize, Log_error], self)
         | Return success \<Rightarrow>
             if success then
               (if task_ok
                then (success, [Call_initialize, Emit_task ''plugin_enabled''],
                      self\<lparr> enabled := True \<rparr>)
                else (False, [Call_initialize, Log_error], self\<lparr> enabled := True \<rparr>))
             else (success, [Call_initialize], self))
      else (False, [], self))"

text \<open>\<open>Plugin.disable\<close>.\<close>

definition disable :: "unit result \<Rightarrow> bool \<Rightarrow> Plugin \<Rightarrow> action list \<times> Plugin" where
  "disable shut task_ok self =
     (if enabled self then
        (case shut of
           Raise \<Rightarrow> ([Call_shutdown, Log_error], self)
         | Return u \<Rightarrow>
             if task_ok
             then ([Call_shutdown, Emit_task ''plugin_disabled''], self\<lparr> enabled := False \<rparr>)
             else ([Call_shutdown, Log_error], self\<lparr> enabled := False \<rparr>))
      else ([], self))"

record PluginManager =
  plugins :: "string \<rightharpoonup> Plugin"
  event_manager :: EventManager

text \<open>
  \<open>_register_plugin_handlers\<close>, restricted to the attributes marked as event handlers:
  each is registered on the bus with the plugin as owner.
\<close>

definition register_plugin_handlers ::
  "(string \<times> nat \<times> EventPriority) list \<Rightarrow> Plugin \<Rightarrow> PluginManager \<Rightarrow> PluginManager" where
  "register_plugin_handlers attrs plg self =
     self\<lparr> event_manager :=
       fold (\<lambda>(n, h, p). register_event_handler n h p (Some (plugin_id plg)))
            attrs (event_manager self) \<rparr>"

text \<open>\<open>enable_plugin\<close>, through \<open>_enable_plugin_async\<close>.\<close>

definition enable_plugin ::
  "bool result \<Rightarrow> bool \<Rightarrow> string \<Rightarrow> PluginManager \<Rightarrow> bool \<times> action list \<times> PluginManager" where
  "enable_plugin init task_ok plugin_name self =
     (case plugins self plugin_name of
        None \<Rightarrow> (False, [], self)
      | Some plg \<Rightarrow>
          (case enable init task_ok plg of
             (success, actions, plg') \<Rightarrow>
               (success, actions, self\<lparr> plugins := (plugins self)(plugin_name \<mapsto> plg') \<rparr>)))"

text \<open>\<open>disable_plugin\<close>.\<close>

definition disable_plugin ::
  "unit result \<Rightarrow> bool \<Rightarrow> string \<Rightarrow> PluginManager \<Rightarrow> action list \<times> PluginManager" where
  "disable_plugin shut task_ok plugin_name self =
     (case plugins self plugin_name of
        None \<Rightarrow> ([], self)
      | Some plg \<Rightarrow>
          (case disable shut task_ok plg of
             (actions, plg') \<Rightarrow>
               (actions,
                self\<lparr> plugins := (plugins self)(plugin_name \<mapsto> plg'),
                      event_manager :=
                        unregister_plugin_events (plugin_id plg) (event_manager self) \<rparr>)))"

text \<open>
  A plugin manager for the examples: plugin \<open>P\<close> (enabled) with two marked handlers, one for
  the event \<open>plugin_enabled\<close> and one for the event \<open>x\<close>.
\<close>

definition example_manager :: PluginManager where
  "example_manager =
     register_plugin_handlers
       [(''plugin_enabled'', 7, NORMAL), (''x'', 8, NORMAL)]
       \<lparr> plugin_id = 1, enabled = True \<rparr>
       \<lparr> plugins = [''P'' \<mapsto> \<lparr> plugin_id = 1, enabled = True \<rparr>],
         event_manager = init_EventManager \<rparr>"

section \<open>Invariants and auxiliary facts\<close>

text \<open>Every handler list of the bus is in ascending order of priority value.\<close>

definition bus_sorted :: "EventManager \<Rightarrow> bool" where
  "bus_sorted em =
     (\<forall>n l. event_handlers em n = Some l \<longrightarrow>
        sorted (map (\<lambda>h. EventPriority_value (priority h)) l))"

lemma served_before_refl: "served_before rank c c"
  by (simp add: served_before_def)

lemma served_before_trans:
  "served_before rank c d \<Longrightarrow> served_before rank d e \<Longrightarrow> served_before rank c e"
  by (auto simp: served_before_def)

lemma not_lt_served_before: "\<not> ChannelCommand_lt rank x m \<Longrightarrow> served_before rank m x"
  by (auto simp: served_before_def ChannelCommand_lt_def split: if_splits)

lemma lt_served_before: "ChannelCommand_lt rank x m \<Longrightarrow> served_before rank x m"
  by (auto simp: served_before_def ChannelCommand_lt_def split: if_splits)

lemma least_entry_mem: "least_entry rank m xs \<in> set (m # xs)"
  by (induction xs arbitrary: m) auto

lemma least_entry_least:
  "served_before rank (least_entry rank m xs) m \<and>
   (\<forall>x\<in>set xs. served_before rank (least_entry rank m xs) x)"
proof (induction xs arbitrary: m)
  case Nil
  show ?case by (simp add: served_before_refl)
next
  case (Cons x xs)
  let ?m' = "if ChannelCommand_lt rank x m then x else m"
  let ?r = "least_entry rank ?m' xs"
  have r: "served_before rank ?r ?m'" and rest: "\<forall>y\<in>set xs. served_before rank ?r y"
    using Cons.IH [of ?m'] by blast+
  have m'm: "served_before rank ?m' m" and m'x: "served_before rank ?m' x"
    by (auto simp: served_before_refl lt_served_before not_lt_served_before)
  have "served_before rank ?r m" "served_before rank ?r x"
    using r m'm m'x served_before_trans by blast+
  with rest show ?case by simp
qed

lemma get_SomeD:
  assumes "get rank q = Some (c, q')"
  shows "c \<in> set q" and "q' = remove1 c q" and "\<forall>d\<in>set q. served_before rank c d"
proof -
  obtain x xs where q: "q = x # xs" and c: "c = least_entry rank x xs"
    and q': "q' = remove1 c q"
    using assms by (auto simp: get_def Let_def split: list.splits)
  show "c \<in> set q" using least_entry_mem [of rank x xs] q c by simp
  show "q' = remove1 c q" by (rule q')
  show "\<forall>d\<in>set q. served_before rank c d"
    using least_entry_least [of rank x xs] q c by simp
qed

lemma get_None: "get rank q = None \<longleftrightarrow> q = []"
  by (simp add: get_def Let_def split: list.splits)

lemma command_queue_execute_command [simp]:
  "command_queue (execute_command c s) = command_queue s"
  by (simp add: execute_command_def set_strength_def adjust_strength_def set_pulse_mode_def
      Let_def split: StrengthOperationType.splits option.splits Channel.splits)

lemma process_command_queue:
  assumes "process_command rank t s = Some (c, s')"
  shows "get rank (command_queue s) = Some (c, command_queue s')"
  using assms
  by (auto simp: process_command_def Let_def split: option.splits prod.splits if_splits CommandType.splits)

lemma process_command_None: "process_command rank t s = None \<longleftrightarrow> command_queue s = []"
  by (cases "command_queue s")
     (auto simp: process_command_def Let_def get_def split: option.splits prod.splits)

lemma process_commands_Cons:
  "process_command rank t s = Some (c, s') \<Longrightarrow>
   fst (process_commands rank (t # ts) s) = c # fst (process_commands rank ts s')"
  by (simp split: prod.splits)

lemma process_commands_mset:
  "mset (fst (process_commands rank ts s)) \<subseteq># mset (command_queue s)"
proof (induction ts arbitrary: s)
  case Nil show ?case by simp
next
  case (Cons t ts)
  show ?case
  proof (cases "process_command rank t s")
    case None then show ?thesis by simp
  next
    case (Some p)
    obtain c s' where p: "p = (c, s')" by (cases p)
    from Some p have g: "get rank (command_queue s) = Some (c, command_queue s')"
      by (simp add: process_command_queue)
    from get_SomeD [OF g] have cin: "c \<in> set (command_queue s)"
      and rem: "command_queue s' = remove1 c (command_queue s)" by simp_all
    have "mset (fst (process_commands rank ts s')) \<subseteq># mset (command_queue s')"
      by (rule Cons.IH)
    then have "add_mset c (mset (fst (process_commands rank ts s'))) \<subseteq># add_mset c (mset (command_queue s'))"
      by simp
    also have "add_mset c (mset (command_queue s')) = mset (command_queue s)"
      using cin rem by simp
    finally show ?thesis using Some p by (simp only: process_commands_Cons mset.simps)
  qed
qed

lemma process_commands_all:
  "length (command_queue s) \<le> length ts \<Longrightarrow> mset (fst (process_commands rank ts s)) = mset (command_queue s)"
proof (induction ts arbitrary: s)
  case Nil then show ?case by simp
next
  case (Cons t ts)
  show ?case
  proof (cases "process_command rank t s")
    case None
    then have "command_queue s = []" by (simp add: process_command_None)
    with None show ?thesis by simp
  next
    case (Some p)
    obtain c s' where p: "p = (c, s')" by (cases p)
    from Some p have g: "get rank (command_queue s) = Some (c, command_queue s')"
      by (simp add: process_command_queue)
    from get_SomeD [OF g] have cin: "c \<in> set (command_queue s)"
      and rem: "command_queue s' = remove1 c (command_queue s)" by simp_all
    have "length (command_queue s') \<le> length ts"
      using Cons.prems cin rem by (simp add: length_remove1)
    then have "mset (fst (process_commands rank ts s')) = mset (command_queue s')"
      by (rule Cons.IH)
    then show ?thesis using Some p cin rem by (simp add: process_commands_Cons del: process_commands.simps)
  qed
qed

lemma process_commands_sorted:
  "sorted_wrt (served_before rank) (fst (process_commands rank ts s))"
proof (induction ts arbitrary: s)
  case Nil show ?case by simp
next
  case (Cons t ts)
  show ?case
  proof (cases "process_command rank t s")
    case None then show ?thesis by simp
  next
    case (Some p)
    obtain c s' where p: "p = (c, s')" by (cases p)
    from Some p have g: "get rank (command_queue s) = Some (c, command_queue s')"
      by (simp add: process_command_queue)
    from get_SomeD [OF g] have least: "\<forall>d\<in>set (command_queue s). served_before rank c d"
      and rem: "command_queue s' = remove1 c (command_queue s)" by simp_all
    have "set (fst (process_commands rank ts s')) \<subseteq> set (command_queue s')"
      using process_commands_mset [of rank ts s'] by (metis mset_subset_eqD subsetI set_mset_mset)
    also have "\<dots> \<subseteq> set (command_queue s)" using rem by (simp add: set_remove1_subset)
    finally have "\<forall>d\<in>set (fst (process_commands rank ts s')). served_before rank c d"
      using least by blast
    with Cons.IH [of s'] show ?thesis using Some p by (simp add: process_commands_Cons del: process_commands.simps)
  qed
qed

lemma execute_command_sources:
  "execute_command c (s\<lparr>command_sources := m\<rparr>) = (execute_command c s)\<lparr>command_sources := m\<rparr>"
  by (simp add: execute_command_def set_strength_def adjust_strength_def set_pulse_mode_def
      Let_def split: StrengthOperationType.splits option.splits Channel.splits)

lemma command_sources_execute_command [simp]:
  "command_sources (execute_command c s) = command_sources s"
  by (simp add: execute_command_def set_strength_def adjust_strength_def set_pulse_mode_def
      Let_def split: StrengthOperationType.splits option.splits Channel.splits)

lemma source_key_neq: "source_key ct (Some sid) \<noteq> sid"
proof
  assume "source_key ct (Some sid) = sid"
  then have "length (source_key ct (Some sid)) = length sid" by simp
  then show False by (simp add: source_key_def split: if_splits)
qed

lemma process_command_skip:
  assumes "get rank (command_queue self) = Some (c, q)"
    and "now - (case command_sources self (source_id c) of None \<Rightarrow> 0 | Some t \<Rightarrow> t)
           < source_cooldowns (command_type c)"
  shows "process_command rank now self = Some (c, self\<lparr> command_queue := q \<rparr>)"
  using assms by (simp add: process_command_def Let_def)

lemma process_command_pass:
  assumes "get rank (command_queue self) = Some (c, q)"
    and "\<not> now - (case command_sources self (source_id c) of None \<Rightarrow> 0 | Some t \<Rightarrow> t)
           < source_cooldowns (command_type c)"
  shows "\<exists>s. process_command rank now self = Some (c, s) \<and> command_queue s = q
           \<and> command_sources s = (command_sources self)(source_id c \<mapsto> now)"
  using assms by (simp add: process_command_def Let_def split: CommandType.splits)

lemma process_command_frame:
  assumes "k \<noteq> source_id c" and "get rank (command_queue self) = Some (c, q)"
    and "process_command rank now self = Some (c, s)"
  shows "process_command rank now (self\<lparr> command_sources := (command_sources self)(k := e) \<rparr>)
           = Some (c, s\<lparr> command_sources := (command_sources s)(k := e) \<rparr>)"
  using assms
  by (auto simp: process_command_def Let_def execute_command_sources fun_upd_twist
      split: CommandType.splits if_splits)

lemma set_sort_insert [simp]: "set (sort_insert x ys) = insert x (set ys)"
  by (induction ys) auto

lemma sorted_sort_insert:
  "sorted (map (\<lambda>h. EventPriority_value (priority h)) ys) \<Longrightarrow>
   sorted (map (\<lambda>h. EventPriority_value (priority h)) (sort_insert x ys))"
  by (induction ys) (auto simp: EventHandler_lt_def)

lemma sorted_list_sort:
  "sorted (map (\<lambda>h. EventPriority_value (priority h)) (list_sort xs))"
  unfolding list_sort_def by (induction xs) (simp_all add: sorted_sort_insert)


lemma bus_sorted_register:
  "bus_sorted em \<Longrightarrow> bus_sorted (register_event_handler n h p plg em)"
  by (auto simp: bus_sorted_def register_event_handler_def Let_def sorted_list_sort
      split: option.splits)

lemma bus_sorted_remove:
  "bus_sorted em \<Longrightarrow> bus_sorted (remove_handler n h em)"
  by (auto simp: bus_sorted_def remove_handler_def Let_def sorted_filter
      split: option.splits if_splits)

lemma bus_sorted_fold_remove:
  "bus_sorted em \<Longrightarrow>
   bus_sorted (fold (\<lambda>(k, handler_obj). remove_handler (split_first k) (handler handler_obj)) d em)"
  by (induction d arbitrary: em) (auto simp: bus_sorted_remove)

lemma bus_sorted_plugin_events:
  "bus_sorted (em\<lparr> plugin_events := m \<rparr>) = bus_sorted em"
  by (simp add: bus_sorted_def)

lemma bus_sorted_unregister_plugin:
  "bus_sorted em \<Longrightarrow> bus_sorted (unregister_plugin_events pid em)"
  by (auto simp: unregister_plugin_events_def Let_def bus_sorted_plugin_events
      bus_sorted_fold_remove split: option.splits)

lemma bus_sorted_apply: "bus_sorted em \<Longrightarrow> bus_sorted (bus_apply c em)"
  by (cases c)
     (simp_all add: bus_sorted_register bus_sorted_remove bus_sorted_unregister_plugin
        unregister_event_handler_def)

lemma bus_sorted_fold: "bus_sorted em \<Longrightarrow> bus_sorted (fold bus_apply calls em)"
  by (induction calls arbitrary: em) (simp_all add: bus_sorted_apply)

lemma bus_sorted_after: "bus_sorted (bus_after calls)"
  unfolding bus_after_def
  by (rule bus_sorted_fold) (simp add: bus_sorted_def init_EventManager_def)

lemma run_handlers_Cons:
  "run_handlers call (x # xs) e =
     (if is_cancelled e then (e, [])
      else (fst (run_handlers call xs (call (handler x) e)),
            x # snd (run_handlers call xs (call (handler x) e))))"
  by (simp split: prod.splits)

lemma run_handlers_prefix: "\<exists>rest. l = snd (run_handlers call l e) @ rest"
  by (induction l arbitrary: e) (simp_all add: run_handlers_Cons del: run_handlers.simps(2))

lemma run_handlers_all:
  assumes "\<forall>h e. \<not> cancelled e \<longrightarrow> \<not> cancelled (call h e)" and "\<not> cancelled e"
  shows "snd (run_handlers call l e) = l \<and> \<not> cancelled (fst (run_handlers call l e))"
  using assms(2)
proof (induction l arbitrary: e)
  case Nil then show ?case by simp
next
  case (Cons x xs)
  have "\<not> cancelled (call (handler x) e)" using assms(1) Cons.prems by blast
  from Cons.IH [OF this] Cons.prems show ?case
    by (simp add: is_cancelled_def run_handlers_Cons del: run_handlers.simps(2))
qed

lemma run_handlers_cancelled: "cancelled e \<Longrightarrow> run_handlers call l e = (e, [])"
  by (cases l) (simp_all add: is_cancelled_def)

lemma run_handlers_until_cancel:
  assumes "\<forall>g\<in>set pre. \<forall>e. \<not> cancelled e \<longrightarrow> \<not> cancelled (call (handler g) e)"
    and "\<forall>e. cancelled (call (handler h) e)" and "\<not> cancelled e"
  shows "snd (run_handlers call (pre @ h # post) e) = pre @ [h]
         \<and> cancelled (fst (run_handlers call (pre @ h # post) e))"
  using assms(1,3)
proof (induction pre arbitrary: e)
  case Nil
  have "cancelled (call (handler h) e)" using assms(2) by blast
  then show ?case using Nil.prems(2)
    by (simp add: is_cancelled_def run_handlers_cancelled run_handlers_Cons
        del: run_handlers.simps(2))
next
  case (Cons x xs)
  have nc: "\<not> cancelled (call (handler x) e)" using Cons.prems by simp
  have "\<forall>g\<in>set xs. \<forall>e. \<not> cancelled e \<longrightarrow> \<not> cancelled (call (handler g) e)"
    using Cons.prems(1) by simp
  from Cons.IH [OF this nc] Cons.prems(2) show ?case
    by (simp add: is_cancelled_def run_handlers_Cons del: run_handlers.simps(2))
qed

lemmas bus_eval =
  bus_after_def register_event_handler_def unregister_event_handler_def remove_handler_def
  unregister_plugin_events_def list_sort_def EventHandler_lt_def init_EventManager_def
  Let_def emit_def new_Event_def is_cancelled_def quiet_def cancelling_def cancel_def
  event_key_def split_first_def

section \<open>Dispatch order\<close>

text \<open>
  C1. The dispatcher takes the commands that are in the queue in non-decreasing order of
  class rank and, within a class, of timestamp: the commands it takes in any run are sorted
  by (rank, timestamp); a run with at least as many iterations as there are queued commands
  takes each of them exactly once; and on a non-empty queue \<open>get\<close> returns, and the
  iteration takes, a queued command that is served before every queued command, leaving
  the others in the queue.
\<close>

theorem dispatch_in_priority_order:
  "sorted_wrt (served_before rank) (fst (process_commands rank ts self))
   \<and> (length (command_queue self) \<le> length ts \<longrightarrow>
        mset (fst (process_commands rank ts self)) = mset (command_queue self))
   \<and> (command_queue self \<noteq> [] \<longrightarrow>
        (\<exists>c q. get rank (command_queue self) = Some (c, q)
           \<and> c \<in> set (command_queue self) \<and> q = remove1 c (command_queue self)
           \<and> (\<forall>d\<in>set (command_queue self). served_before rank c d)
           \<and> (\<exists>s. process_command rank t self = Some (c, s) \<and> command_queue s = q)))"
proof (intro conjI impI)
  show "sorted_wrt (served_before rank) (fst (process_commands rank ts self))"
    by (rule process_commands_sorted)
next
  assume "length (command_queue self) \<le> length ts"
  then show "mset (fst (process_commands rank ts self)) = mset (command_queue self)"
    by (rule process_commands_all)
next
  assume ne: "command_queue self \<noteq> []"
  then have "process_command rank t self \<noteq> None" by (simp add: process_command_None)
  then obtain c s where p: "process_command rank t self = Some (c, s)" by auto
  then have g: "get rank (command_queue self) = Some (c, command_queue s)"
    by (rule process_command_queue)
  from get_SomeD [OF g] p g
  show "\<exists>c q. get rank (command_queue self) = Some (c, q)
           \<and> c \<in> set (command_queue self) \<and> q = remove1 c (command_queue self)
           \<and> (\<forall>d\<in>set (command_queue self). served_before rank c d)
           \<and> (\<exists>s. process_command rank t self = Some (c, s) \<and> command_queue s = q)"
    by blast
qed

theorem dispatch_in_priority_order_witness:
  "length [example_command PANEL_COMMAND 1, example_command GUI_COMMAND 2,
          example_command GUI_COMMAND 1] \<le> length [10, 11, 12 :: real]
   \<and> fst (process_commands listed_rank [10, 11, 12]
      (init_DGLabController\<lparr> command_queue :=
         [example_command PANEL_COMMAND 1, example_command GUI_COMMAND 2,
          example_command GUI_COMMAND 1] \<rparr>))
    = [example_command GUI_COMMAND 1, example_command GUI_COMMAND 2,
       example_command PANEL_COMMAND 1]
   \<and> sorted_wrt (served_before listed_rank)
       [example_command GUI_COMMAND 1, example_command GUI_COMMAND 2,
        example_command PANEL_COMMAND 1]
   \<and> mset [example_command GUI_COMMAND 1, example_command GUI_COMMAND 2,
        example_command PANEL_COMMAND 1]
      = mset [example_command PANEL_COMMAND 1, example_command GUI_COMMAND 2,
          example_command GUI_COMMAND 1]"
proof -
  let ?q = "[example_command PANEL_COMMAND 1, example_command GUI_COMMAND 2,
          example_command GUI_COMMAND 1]"
  let ?s = "init_DGLabController\<lparr> command_queue := ?q \<rparr>"
  have run: "fst (process_commands listed_rank [10, 11, 12] ?s)
      = [example_command GUI_COMMAND 1, example_command GUI_COMMAND 2,
         example_command PANEL_COMMAND 1]"
    by (simp add: process_command_def get_def Let_def ChannelCommand_lt_def
        example_command_def init_DGLabController_def execute_command_def set_strength_def)
  have len: "length (command_queue ?s) \<le> length [10, 11, 12 :: real]"
    by simp
  have q: "command_queue ?s = ?q"
    by simp
  note order = dispatch_in_priority_order [of listed_rank "[10, 11, 12]" ?s]
  show ?thesis
    using order [THEN conjunct1] order [THEN conjunct2, THEN conjunct1, THEN mp, OF len]
    unfolding run q by simp
qed

section \<open>Order of event handlers\<close>

text \<open>
  C2, as the code has it. For every history of registrations and unregistrations and every
  behaviour of the handlers, \<open>emit\<close> invokes the handlers of the exact event name in
  non-decreasing order of priority value: \<open>LOWEST\<close> handlers first, \<open>HIGHEST\<close> after every
  handler of lower value, \<open>MONITOR\<close> handlers last, whatever the order of registration. When
  no handler cancels, all handlers stored for the name are invoked.
\<close>

theorem emit_ascending_priority:
  "case emit call n (bus_after calls) of
     (ev, called, called_wildcard) \<Rightarrow>
       sorted (map (\<lambda>h. EventPriority_value (priority h)) called)
       \<and> (\<forall>i j. i < j \<and> j < length called \<and> priority (called ! i) = MONITOR
              \<longrightarrow> priority (called ! j) = MONITOR)
       \<and> (\<forall>i j. i < j \<and> j < length called \<and> priority (called ! j) = LOWEST
              \<longrightarrow> priority (called ! i) = LOWEST)
       \<and> ((\<forall>h e. \<not> cancelled e \<longrightarrow> \<not> cancelled (call h e)) \<longrightarrow>
            called = (case event_handlers (bus_after calls) n of None \<Rightarrow> [] | Some l \<Rightarrow> l))"
proof -
  obtain ev called wild where e: "emit call n (bus_after calls) = (ev, called, wild)"
    by (cases "emit call n (bus_after calls)") auto
  let ?l = "case event_handlers (bus_after calls) n of None \<Rightarrow> [] | Some l \<Rightarrow> l"
  have called: "called = snd (run_handlers call ?l (new_Event n))"
    using e by (auto simp: emit_def split: option.splits prod.splits)
  have "sorted (map (\<lambda>h. EventPriority_value (priority h)) ?l)"
    using bus_sorted_after [of calls] by (auto simp: bus_sorted_def split: option.splits)
  moreover obtain rest where "?l = called @ rest"
    using run_handlers_prefix [of ?l call "new_Event n"] called by blast
  ultimately have s: "sorted (map (\<lambda>h. EventPriority_value (priority h)) called)"
    by (simp add: sorted_append)
  have le: "EventPriority_value (priority (called ! i)) \<le> EventPriority_value (priority (called ! j))"
    if "i < j" "j < length called" for i j
    using s that by (simp add: sorted_iff_nth_mono)
  have mon: "priority (called ! j) = MONITOR"
    if "i < j" "j < length called" "priority (called ! i) = MONITOR" for i j
    using le [OF that(1,2)] that(3) by (cases "priority (called ! j)") simp_all
  have low: "priority (called ! i) = LOWEST"
    if "i < j" "j < length called" "priority (called ! j) = LOWEST" for i j
    using le [OF that(1,2)] that(3) by (cases "priority (called ! i)") simp_all
  have full: "called = ?l" if "\<forall>h e. \<not> cancelled e \<longrightarrow> \<not> cancelled (call h e)"
    using run_handlers_all [OF that, of "new_Event n" ?l] called by (simp add: new_Event_def)
  show ?thesis using s mon low full unfolding e by (simp del: split_paired_All) blast
qed

theorem emit_ascending_priority_witness:
  "emit quiet ''x''
     (bus_after [Register ''x'' 1 MONITOR None, Register ''x'' 2 HIGHEST None,
                 Register ''x'' 3 LOWEST None, Register ''y'' 4 LOW None])
   = (new_Event ''x'',
      [\<lparr> handler = 3, priority = LOWEST, plugin = None \<rparr>,
       \<lparr> handler = 2, priority = HIGHEST, plugin = None \<rparr>,
       \<lparr> handler = 1, priority = MONITOR, plugin = None \<rparr>], [])
   \<and> sorted (map (\<lambda>h. EventPriority_value (priority h))
       [\<lparr> handler = 3, priority = LOWEST, plugin = None \<rparr>,
        \<lparr> handler = 2, priority = HIGHEST, plugin = None \<rparr>,
        \<lparr> handler = 1, priority = MONITOR, plugin = None \<rparr>])"
proof -
  let ?calls = "[Register ''x'' 1 MONITOR None, Register ''x'' 2 HIGHEST None,
                 Register ''x'' 3 LOWEST None, Register ''y'' 4 LOW None]"
  have run: "emit quiet ''x'' (bus_after ?calls)
   = (new_Event ''x'',
      [\<lparr> handler = 3, priority = LOWEST, plugin = None \<rparr>,
       \<lparr> handler = 2, priority = HIGHEST, plugin = None \<rparr>,
       \<lparr> handler = 1, priority = MONITOR, plugin = None \<rparr>], [])"
    by (simp add: bus_eval)
  show ?thesis
    using emit_ascending_priority [where call = quiet and n = "''x''" and calls = ?calls]
    unfolding run by simp
qed

text \<open>
  C2 as stated fails: with a \<open>HIGHEST\<close> and a \<open>NORMAL\<close> handler registered for the event, the
  \<open>NORMAL\<close> handler is invoked first.
\<close>

theorem highest_handler_not_first_counterexample:
  "map priority (fst (snd (emit quiet ''x''
      (bus_after [Register ''x'' 1 HIGHEST None, Register ''x'' 2 NORMAL None]))))
   = [NORMAL, HIGHEST]"
  by (simp add: bus_eval)

section \<open>Cancellation\<close>

text \<open>
  C3, as the code has it. When a handler of the event cancels it, and the handlers before it
  in the stored (ascending) order do not, exactly those and the cancelling handler are
  invoked: the handlers before it have priority value at most its own and have already run;
  the handlers after it, whose priority value is at least its own (\<open>MONITOR\<close> included), and
  all wildcard handlers are not invoked, and the event is returned cancelled.
\<close>

theorem cancel_stops_later_handlers:
  assumes "event_handlers (bus_after calls) n = Some (pre @ h # post)"
    and "\<forall>g\<in>set pre. \<forall>e. \<not> cancelled e \<longrightarrow> \<not> cancelled (call (handler g) e)"
    and "\<forall>e. cancelled (call (handler h) e)"
  shows "\<exists>ev. emit call n (bus_after calls) = (ev, pre @ [h], []) \<and> cancelled ev
      \<and> (\<forall>g\<in>set pre. EventPriority_value (priority g) \<le> EventPriority_value (priority h))
      \<and> (\<forall>g\<in>set post. EventPriority_value (priority h) \<le> EventPriority_value (priority g))"
proof -
  obtain ev called where r: "run_handlers call (pre @ h # post) (new_Event n) = (ev, called)"
    by (cases "run_handlers call (pre @ h # post) (new_Event n)")
  have c: "called = pre @ [h]" "cancelled ev"
    using run_handlers_until_cancel [OF assms(2,3), of "new_Event n" post] r
    by (simp_all add: new_Event_def)
  have e: "emit call n (bus_after calls) = (ev, pre @ [h], [])"
    using c by (simp add: emit_def assms(1) r run_handlers_cancelled split: option.splits)
  have "sorted (map (\<lambda>h. EventPriority_value (priority h)) (pre @ h # post))"
    using bus_sorted_after [of calls, unfolded bus_sorted_def] assms(1) by blast
  then have "\<forall>g\<in>set pre. EventPriority_value (priority g) \<le> EventPriority_value (priority h)"
    and "\<forall>g\<in>set post. EventPriority_value (priority h) \<le> EventPriority_value (priority g)"
    by (auto simp: sorted_append)
  with e c(2) show ?thesis by blast
qed

theorem cancel_stops_later_handlers_witness:
  "emit (cancelling 2) ''x''
     (bus_after [Register ''x'' 1 MONITOR None, Register ''x'' 2 HIGH None,
                 Register ''x'' 3 LOWEST None, Register ''x'' 4 HIGHEST None,
                 Register ''*'' 5 LOWEST None])
   = (\<lparr> name = ''x'', cancelled = True \<rparr>,
      [\<lparr> handler = 3, priority = LOWEST, plugin = None \<rparr>,
       \<lparr> handler = 2, priority = HIGH, plugin = None \<rparr>], [])"
proof -
  let ?calls = "[Register ''x'' 1 MONITOR None, Register ''x'' 2 HIGH None,
                 Register ''x'' 3 LOWEST None, Register ''x'' 4 HIGHEST None,
                 Register ''*'' 5 LOWEST None]"
  let ?pre = "[\<lparr> handler = 3, priority = LOWEST, plugin = None \<rparr>]"
  let ?h = "\<lparr> handler = 2, priority = HIGH, plugin = None \<rparr>"
  let ?post = "[\<lparr> handler = 4, priority = HIGHEST, plugin = None \<rparr>,
                \<lparr> handler = 1, priority = MONITOR, plugin = None \<rparr>]"
  have stored: "event_handlers (bus_after ?calls) ''x'' = Some (?pre @ ?h # ?post)"
    by (simp add: bus_eval)
  have quiet_pre: "\<forall>g\<in>set ?pre. \<forall>e. \<not> cancelled e \<longrightarrow> \<not> cancelled (cancelling 2 (handler g) e)"
    by (simp add: cancelling_def)
  have cancels: "\<forall>e. cancelled (cancelling 2 (handler ?h) e)"
    by (simp add: cancelling_def cancel_def)
  from cancel_stops_later_handlers [OF stored quiet_pre cancels]
  obtain ev where e: "emit (cancelling 2) ''x'' (bus_after ?calls) = (ev, ?pre @ [?h], [])"
    and c: "cancelled ev" by blast
  have "name ev = ''x''"
    using e by (auto simp: bus_eval)
  with c have "ev = \<lparr> name = ''x'', cancelled = True \<rparr>" by simp
  with e show ?thesis by simp
qed

text \<open>
  C3 as stated fails: in the scenario of three handlers at \<open>HIGHEST\<close> (1, cancelling),
  \<open>NORMAL\<close> (2) and \<open>LOWEST\<close> (3), the observed call order is 3, 2, 1, not 1 alone.
\<close>

theorem highest_cancel_scenario_counterexample:
  "map handler (fst (snd (emit (cancelling 1) ''x''
      (bus_after [Register ''x'' 1 HIGHEST None, Register ''x'' 2 NORMAL None,
                  Register ''x'' 3 LOWEST None]))))
   = [3, 2, 1]"
  by (simp add: bus_eval)

section \<open>The cooldown gate at submission\<close>

text \<open>
  C4. A submission from a (class, source) pair is accepted into the queue if and only if
  the pair's key has no ledger entry or the submission time minus the entry is at least the
  class's cooldown. On acceptance the entry is set to the submission time and the command
  is appended to the queue; on rejection the controller is unchanged. After an accepted
  submission, a second one from the same pair less than the cooldown later is rejected, so
  of the two exactly one command is queued.
\<close>

theorem add_command_cooldown_gate:
  "let key = source_key ct sid;
       accepted = (case command_sources self key of
                     None \<Rightarrow> True
                   | Some last_time \<Rightarrow> source_cooldowns ct \<le> now - last_time);
       cmd = new_ChannelCommand uid clock ct ch opr v sid (Some now);
       self' = add_command uid clock now ct ch opr v sid self
   in (command_queue self' = command_queue self @ [cmd] \<longleftrightarrow> accepted)
      \<and> (accepted \<longrightarrow>
            self' = self\<lparr> command_sources := (command_sources self)(key \<mapsto> now),
                         command_queue := command_queue self @ [cmd] \<rparr>)
      \<and> (\<not> accepted \<longrightarrow> self' = self)
      \<and> (accepted \<and> later - now < source_cooldowns ct \<longrightarrow>
            add_command uid' clock' later ct ch' opr' v' sid self' = self'
            \<and> command_queue (add_command uid' clock' later ct ch' opr' v' sid self')
                = command_queue self @ [cmd])"
  by (auto simp: Let_def add_command_def put_def split: option.splits)

theorem add_command_cooldown_gate_witness:
  "add_command ''u1'' 100 100 PANEL_COMMAND Channel_A SET_TO 5 (Some ''s'') init_DGLabController
     = init_DGLabController
         \<lparr> command_sources := [''PANEL_COMMAND_s'' \<mapsto> 100],
           command_queue := [\<lparr> command_type = PANEL_COMMAND, channel = Channel_A,
              operation = SET_TO, cmd_value = 5, source_id = ''s'', timestamp = 100 \<rparr>] \<rparr>
   \<and> command_queue
        (add_command ''u2'' 100.05 100.05 PANEL_COMMAND Channel_A SET_TO 9 (Some ''s'')
          (add_command ''u1'' 100 100 PANEL_COMMAND Channel_A SET_TO 5 (Some ''s'')
             init_DGLabController))
       = [\<lparr> command_type = PANEL_COMMAND, channel = Channel_A,
              operation = SET_TO, cmd_value = 5, source_id = ''s'', timestamp = 100 \<rparr>]"
proof -
  have acc: "command_sources init_DGLabController (source_key PANEL_COMMAND (Some ''s'')) = None"
    by (simp add: init_DGLabController_def)
  have near: "(100.05::real) - 100 < source_cooldowns PANEL_COMMAND"
    by simp
  note gate = add_command_cooldown_gate
    [where ct = PANEL_COMMAND and sid = "Some ''s''" and self = init_DGLabController
       and now = 100 and uid = "''u1''" and clock = 100 and ch = Channel_A and opr = SET_TO
       and v = 5 and later = "100.05" and uid' = "''u2''" and clock' = "100.05"
       and ch' = Channel_A and opr' = SET_TO and v' = 9, unfolded Let_def]
  show ?thesis
    using gate [THEN conjunct2, THEN conjunct1]
      gate [THEN conjunct2, THEN conjunct2, THEN conjunct2] acc near
    by (simp add: init_DGLabController_def source_key_def new_ChannelCommand_def)
qed

section \<open>The cooldown check at dispatch\<close>

text \<open>
  C5, as the code has it. For the command taken from the queue the dispatcher reads the
  entry of the same ledger dict under the key \<open>command.source_id\<close> alone (0 when there is
  none) and compares the time since then with the cooldown of the command's class: inside
  the cooldown the command is skipped and only the queue changes, otherwise the entry of
  \<open>source_id\<close> is set to the current time. The key of the command's own (class, source)
  pair, which \<open>add_command\<close> writes, is a different string, and its entry has no
  influence on the iteration.
\<close>

theorem dispatch_cooldown_by_source_id:
  assumes "get rank (command_queue self) = Some (c, q)"
  shows "\<exists>s. process_command rank now self = Some (c, s)
     \<and> command_queue s = q
     \<and> (if now - (case command_sources self (source_id c) of None \<Rightarrow> 0 | Some t \<Rightarrow> t)
             < source_cooldowns (command_type c)
         then s = self\<lparr> command_queue := q \<rparr>
         else command_sources s = (command_sources self)(source_id c \<mapsto> now))
     \<and> source_key (command_type c) (Some (source_id c)) \<noteq> source_id c
     \<and> (\<forall>e. process_command rank now
              (self\<lparr> command_sources := (command_sources self)
                 (source_key (command_type c) (Some (source_id c)) := e) \<rparr>)
           = Some (c, s\<lparr> command_sources := (command_sources s)
                 (source_key (command_type c) (Some (source_id c)) := e) \<rparr>))"
proof -
  let ?k = "source_key (command_type c) (Some (source_id c))"
  have k: "?k \<noteq> source_id c" by (rule source_key_neq)
  show ?thesis
  proof (cases "now - (case command_sources self (source_id c) of None \<Rightarrow> 0 | Some t \<Rightarrow> t)
           < source_cooldowns (command_type c)")
    case True
    from process_command_skip [OF assms True]
    have p: "process_command rank now self = Some (c, self\<lparr> command_queue := q \<rparr>)" .
    show ?thesis using p True k process_command_frame [OF k assms p] by simp
  next
    case False
    from process_command_pass [OF assms False] obtain s
      where p: "process_command rank now self = Some (c, s)" and "command_queue s = q"
        and "command_sources s = (command_sources self)(source_id c \<mapsto> now)" by blast
    then show ?thesis using False k process_command_frame [OF k assms p] by simp
  qed
qed

theorem dispatch_cooldown_by_source_id_witness:
  "get listed_rank (command_queue
      (add_command ''u'' 100 100 PANEL_COMMAND Channel_A SET_TO 5 (Some ''s'')
         init_DGLabController)) = Some (example_command PANEL_COMMAND 100, [])
   \<and> (\<exists>s. process_command listed_rank 100.01
          (add_command ''u'' 100 100 PANEL_COMMAND Channel_A SET_TO 5 (Some ''s'')
             init_DGLabController) = Some (example_command PANEL_COMMAND 100, s)
        \<and> command_sources s = [''PANEL_COMMAND_s'' \<mapsto> 100, ''s'' \<mapsto> 100.01])"
proof -
  let ?s = "add_command ''u'' 100 100 PANEL_COMMAND Channel_A SET_TO 5 (Some ''s'')
         init_DGLabController"
  have g: "get listed_rank (command_queue ?s) = Some (example_command PANEL_COMMAND 100, [])"
    by (simp add: add_command_def get_def Let_def put_def new_ChannelCommand_def
        source_key_def init_DGLabController_def example_command_def)
  have m: "command_sources ?s = [''PANEL_COMMAND_s'' \<mapsto> 100]"
    by (simp add: add_command_def Let_def source_key_def init_DGLabController_def)
  from dispatch_cooldown_by_source_id [OF g, of "100.01"] obtain s
    where "process_command listed_rank 100.01 ?s = Some (example_command PANEL_COMMAND 100, s)"
      and "if 100.01 - (case command_sources ?s (source_id (example_command PANEL_COMMAND 100))
                         of None \<Rightarrow> 0 | Some t \<Rightarrow> t)
             < source_cooldowns (command_type (example_command PANEL_COMMAND 100))
           then s = ?s\<lparr> command_queue := [] \<rparr>
           else command_sources s = (command_sources ?s)
                  (source_id (example_command PANEL_COMMAND 100) \<mapsto> 100.01)"
    by blast
  then show ?thesis using g by (simp add: m example_command_def)
qed

text \<open>
  C5 as stated fails: a PANEL command submitted at time 100 (so its pair's ledger entry is
  100) and dispatched at 100.01, inside the 0.1 s cooldown of its pair, is executed.
\<close>

theorem dispatch_ignores_pair_entry_counterexample:
  "command_sources
      (add_command ''u'' 100 100 PANEL_COMMAND Channel_A SET_TO 5 (Some ''s'')
         init_DGLabController) (source_key PANEL_COMMAND (Some ''s'')) = Some 100
   \<and> (100.01::real) - 100 < source_cooldowns PANEL_COMMAND
   \<and> process_command listed_rank 100.01
        (add_command ''u'' 100 100 PANEL_COMMAND Channel_A SET_TO 5 (Some ''s'')
           init_DGLabController)
      = Some (example_command PANEL_COMMAND 100,
          init_DGLabController
            \<lparr> client := [Set_strength Channel_A SET_TO 5],
              command_sources := [''PANEL_COMMAND_s'' \<mapsto> 100, ''s'' \<mapsto> 100.01] \<rparr>)"
  by (simp add: add_command_def process_command_def get_def Let_def put_def
      new_ChannelCommand_def source_key_def init_DGLabController_def example_command_def
      execute_command_def set_strength_def)

section \<open>Handlers that survive \<open>disable_plugin\<close>\<close>

text \<open>
  C6 does not hold of the code. \<open>unregister_plugin_events\<close> recovers the event name from
  the key \<open>f"{event_name}_{id(handler)}"\<close> by \<open>split('_')[0]\<close>, which for the event
  \<open>plugin_enabled\<close> is \<open>plugin\<close>: after \<open>disable_plugin\<close>, whether or not the notification
  task could be created, the plugin is disabled and its record of registered events is
  deleted, but its handler for \<open>plugin_enabled\<close> is still registered, while its handler for
  \<open>x\<close> is gone. In the run that occurs through the manager (\<open>task_ok = False\<close>) \<open>shutdown()\<close>
  is called, creating the notification task raises and is logged, and no \<open>plugin_disabled\<close>
  event is published.
\<close>

theorem disable_plugin_leaves_underscore_handler:
  "event_handlers (event_manager example_manager)
     = [''plugin_enabled'' \<mapsto> [\<lparr> handler = 7, priority = NORMAL, plugin = Some 1 \<rparr>],
        ''x'' \<mapsto> [\<lparr> handler = 8, priority = NORMAL, plugin = Some 1 \<rparr>]]
   \<and> fst (disable_plugin (Return ()) False ''P'' example_manager)
       = [Call_shutdown, Log_error]
   \<and> plugins (snd (disable_plugin (Return ()) task_ok ''P'' example_manager))
       = [''P'' \<mapsto> \<lparr> plugin_id = 1, enabled = False \<rparr>]
   \<and> plugin_events (event_manager (snd (disable_plugin (Return ()) task_ok ''P'' example_manager)))
       = Map.empty
   \<and> event_handlers (event_manager (snd (disable_plugin (Return ()) task_ok ''P'' example_manager)))
       = [''plugin_enabled'' \<mapsto> [\<lparr> handler = 7, priority = NORMAL, plugin = Some 1 \<rparr>]]"
  by (simp add: example_manager_def register_plugin_handlers_def disable_plugin_def
      disable_def bus_eval str_nat.simps fun_upd_twist)

section \<open>Channel-limit clamping\<close>

text \<open>
  C7. With a last-known strength state, \<open>adjust_strength\<close> sends exactly one call to the
  transport, \<open>SET_TO\<close> with the value \<open>max(0, min(limit, current + delta))\<close> of the
  channel, and for a (non-negative) channel limit that value lies in \<open>[0, limit]\<close>
  whatever the magnitude and sign of \<open>delta\<close>.
\<close>

theorem adjust_strength_clamped:
  assumes "last_strength self = Some ls"
    and "bound = (case ch of Channel_A \<Rightarrow> a_limit ls | Channel_B \<Rightarrow> b_limit ls)"
    and "cur = (case ch of Channel_A \<Rightarrow> strength_a ls | Channel_B \<Rightarrow> strength_b ls)"
    and "0 \<le> bound"
  shows "\<exists>v. client (adjust_strength ch delta self) = client self @ [Set_strength ch SET_TO v]
           \<and> v = max 0 (min bound (cur + delta)) \<and> 0 \<le> v \<and> v \<le> bound"
  using assms by (cases ch) (simp_all add: adjust_strength_def Let_def)

theorem adjust_strength_clamped_witness:
  "client (adjust_strength Channel_A 1000
      (init_DGLabController\<lparr> last_strength :=
         Some \<lparr> strength_a = 30, strength_b = 10, a_limit = 100, b_limit = 50 \<rparr> \<rparr>))
     = [Set_strength Channel_A SET_TO 100]"
  using adjust_strength_clamped
    [of "init_DGLabController\<lparr> last_strength :=
           Some \<lparr> strength_a = 30, strength_b = 10, a_limit = 100, b_limit = 50 \<rparr> \<rparr>"
        "\<lparr> strength_a = 30, strength_b = 10, a_limit = 100, b_limit = 50 \<rparr>"
        100 Channel_A 30 1000]
  by (simp add: init_DGLabController_def)

section \<open>Disabling a disabled plugin\<close>

text \<open>
  C8. \<open>disable\<close> on a plugin whose \<open>enabled\<close> flag is false returns normally with no
  action at all: no call of \<open>shutdown()\<close>, no \<open>plugin_disabled\<close> event, the plugin
  unchanged; the same holds through \<open>disable_plugin\<close> of the manager.
\<close>

theorem disable_disabled_plugin_noop:
  "(\<not> enabled p \<longrightarrow> disable shut task_ok p = ([], p))
   \<and> (plugins self plugin_name = Some p \<and> \<not> enabled p \<longrightarrow>
        fst (disable_plugin shut task_ok plugin_name self) = []
        \<and> plugins (snd (disable_plugin shut task_ok plugin_name self)) = plugins self)"
  by (auto simp: disable_def disable_plugin_def)

theorem disable_disabled_plugin_noop_witness:
  "disable (Return ()) True \<lparr> plugin_id = 1, enabled = False \<rparr>
     = ([], \<lparr> plugin_id = 1, enabled = False \<rparr>)
   \<and> fst (disable_plugin Raise False ''P''
        \<lparr> plugins = [''P'' \<mapsto> \<lparr> plugin_id = 1, enabled = False \<rparr>],
          event_manager = init_EventManager \<rparr>) = []"
  using disable_disabled_plugin_noop
    [where p = "\<lparr> plugin_id = 1, enabled = False \<rparr>" and shut = "Return ()" and task_ok = True,
     THEN conjunct1]
    disable_disabled_plugin_noop
    [where p = "\<lparr> plugin_id = 1, enabled = False \<rparr>" and shut = Raise and task_ok = False
       and plugin_name = "''P''"
       and self = "\<lparr> plugins = [''P'' \<mapsto> \<lparr> plugin_id = 1, enabled = False \<rparr>],
          event_manager = init_EventManager \<rparr>", THEN conjunct2]
  by simp

section \<open>Enabling an enabled plugin\<close>

text \<open>
  C9, as the code has it. \<open>enable\<close> on an enabled plugin returns false with no action (no
  call of \<open>initialize()\<close>), also through \<open>enable_plugin\<close>. Of two sequential \<open>enable_plugin\<close>
  calls on a plugin that is not enabled, when \<open>initialize()\<close> returns true in the first, the
  second returns false, changes nothing and does not call \<open>initialize()\<close>, which so runs
  exactly once.
\<close>

theorem enable_enabled_plugin_noop:
  "(enabled p \<longrightarrow> enable init task_ok p = (False, [], p))
   \<and> (plugins self plugin_name = Some p \<and> enabled p \<longrightarrow>
        enable_plugin init task_ok plugin_name self = (False, [], self))
   \<and> (plugins self plugin_name = Some p \<and> \<not> enabled p \<longrightarrow>
        (case enable_plugin (Return True) task_ok plugin_name self of
           (r1, actions1, self1) \<Rightarrow>
             enable_plugin init task_ok' plugin_name self1 = (False, [], self1)
             \<and> count_list actions1 Call_initialize = 1))"
  by (auto simp: enable_def enable_plugin_def fun_upd_idem_iff split: prod.splits)

theorem enable_enabled_plugin_noop_witness:
  "enable_plugin (Return True) False ''P''
     \<lparr> plugins = [''P'' \<mapsto> \<lparr> plugin_id = 1, enabled = False \<rparr>],
       event_manager = init_EventManager \<rparr>
   = (False, [Call_initialize, Log_error],
      \<lparr> plugins = [''P'' \<mapsto> \<lparr> plugin_id = 1, enabled = True \<rparr>],
        event_manager = init_EventManager \<rparr>)
   \<and> enable_plugin (Return True) False ''P''
       \<lparr> plugins = [''P'' \<mapsto> \<lparr> plugin_id = 1, enabled = True \<rparr>],
         event_manager = init_EventManager \<rparr>
     = (False, [],
        \<lparr> plugins = [''P'' \<mapsto> \<lparr> plugin_id = 1, enabled = True \<rparr>],
          event_manager = init_EventManager \<rparr>)"
proof -
  let ?s = "\<lparr> plugins = [''P'' \<mapsto> \<lparr> plugin_id = 1, enabled = False \<rparr>],
       event_manager = init_EventManager \<rparr>"
  let ?s1 = "\<lparr> plugins = [''P'' \<mapsto> \<lparr> plugin_id = 1, enabled = True \<rparr>],
        event_manager = init_EventManager \<rparr>"
  have first: "enable_plugin (Return True) False ''P'' ?s
      = (False, [Call_initialize, Log_error], ?s1)"
    by (simp add: enable_plugin_def enable_def)
  have pre: "plugins ?s ''P'' = Some \<lparr> plugin_id = 1, enabled = False \<rparr>
      \<and> \<not> enabled \<lparr> plugin_id = 1, enabled = False \<rparr>"
    by simp
  from enable_enabled_plugin_noop
    [where p = "\<lparr> plugin_id = 1, enabled = False \<rparr>" and self = ?s and plugin_name = "''P''"
       and task_ok = False and init = "Return True" and task_ok' = False,
     THEN conjunct2, THEN conjunct2, THEN mp, OF pre]
  have "enable_plugin (Return True) False ''P'' ?s1 = (False, [], ?s1)"
    unfolding first by simp
  with first show ?thesis by simp
qed

text \<open>
  C9 as stated fails: when \<open>initialize()\<close> returns false, the plugin stays not enabled and
  the second of two sequential \<open>enable_plugin\<close> calls invokes \<open>initialize()\<close> again.
\<close>

theorem initialize_retried_after_failure_counterexample:
  "enable_plugin (Return False) True ''P''
     \<lparr> plugins = [''P'' \<mapsto> \<lparr> plugin_id = 1, enabled = False \<rparr>],
       event_manager = init_EventManager \<rparr>
   = (False, [Call_initialize],
      \<lparr> plugins = [''P'' \<mapsto> \<lparr> plugin_id = 1, enabled = False \<rparr>],
        event_manager = init_EventManager \<rparr>)
   \<and> count_list
       (fst (snd (enable_plugin (Return False) True ''P''
          \<lparr> plugins = [''P'' \<mapsto> \<lparr> plugin_id = 1, enabled = False \<rparr>],
            event_manager = init_EventManager \<rparr>))
        @ fst (snd (enable_plugin (Return False) True ''P''
          (snd (snd (enable_plugin (Return False) True ''P''
            \<lparr> plugins = [''P'' \<mapsto> \<lparr> plugin_id = 1, enabled = False \<rparr>],
              event_manager = init_EventManager \<rparr>))))))
       Call_initialize = 2"
  by (simp add: enable_plugin_def enable_def)

section \<open>The ledger entry of a dropped command\<close>

text \<open>
  C10. A command that is taken outside its cooldown but dropped because its class toggle
  or its channel's interaction mode is off still has the entry of its \<open>source_id\<close> set to
  the current time, and nothing is sent to the transport. Submitting a later command with
  the same \<open>source_id\<close> leaves that entry in place, and when that command is taken less
  than its class's cooldown after the dropped one, it is skipped.
\<close>

theorem dropped_command_refreshes_source_entry:
  assumes taken: "get rank (command_queue self) = Some (c, q)"
    and fresh: "\<not> t1 - (case command_sources self (source_id c) of None \<Rightarrow> 0 | Some t \<Rightarrow> t)
                   < source_cooldowns (command_type c)"
    and off: "(command_type c = GUI_COMMAND \<and> \<not> enable_gui_commands self)
        \<or> (command_type c = PANEL_COMMAND \<and> \<not> enable_panel_commands self)
        \<or> (command_type c = INTERACTION_COMMAND
             \<and> (\<not> enable_interaction_commands self
                  \<or> \<not> ((channel c = Channel_A \<and> enable_interaction_mode_a self)
                         \<or> (channel c = Channel_B \<and> enable_interaction_mode_b self))))"
  shows "\<exists>s1. process_command rank t1 self = Some (c, s1)
      \<and> s1 = self\<lparr> command_queue := q,
                      command_sources := (command_sources self)(source_id c \<mapsto> t1) \<rparr>
      \<and> client s1 = client self
      \<and> (\<forall>uid clock now ct ch opr v d q2 t2.
            command_sources
              (add_command uid clock now ct ch opr v (Some (source_id c)) s1) (source_id c)
              = Some t1
            \<and> (get rank (command_queue
                    (add_command uid clock now ct ch opr v (Some (source_id c)) s1))
                  = Some (d, q2)
                \<and> source_id d = source_id c
                \<and> t2 - t1 < source_cooldowns (command_type d)
                \<longrightarrow> process_command rank t2
                      (add_command uid clock now ct ch opr v (Some (source_id c)) s1)
                    = Some (d, (add_command uid clock now ct ch opr v (Some (source_id c)) s1)
                                 \<lparr> command_queue := q2 \<rparr>)))"
proof -
  let ?s1 = "self\<lparr> command_queue := q,
                      command_sources := (command_sources self)(source_id c \<mapsto> t1) \<rparr>"
  have p: "process_command rank t1 self = Some (c, ?s1)"
    using taken fresh off
    by (auto simp: process_command_def Let_def split: CommandType.splits)
  have keep: "command_sources (add_command uid clock now ct ch opr v (Some (source_id c)) ?s1)
                (source_id c) = Some t1" for uid clock now ct ch opr v
    using source_key_neq [of ct "source_id c"]
    by (auto simp: add_command_def Let_def split: option.splits)
  have skip: "process_command rank t2
                (add_command uid clock now ct ch opr v (Some (source_id c)) ?s1)
              = Some (d, (add_command uid clock now ct ch opr v (Some (source_id c)) ?s1)
                           \<lparr> command_queue := q2 \<rparr>)"
    if "get rank (command_queue (add_command uid clock now ct ch opr v (Some (source_id c)) ?s1))
          = Some (d, q2)"
      and "source_id d = source_id c" and "t2 - t1 < source_cooldowns (command_type d)"
    for uid clock now ct ch opr v d q2 t2
    using that keep [of uid clock now ct ch opr v]
    by (intro process_command_skip) simp_all
  show ?thesis
    using p keep skip by (intro exI [of _ ?s1]) simp
qed

theorem dropped_command_refreshes_source_entry_witness:
  "process_command listed_rank 100.5
      (init_DGLabController\<lparr> enable_panel_commands := False,
          command_queue := [example_command PANEL_COMMAND 100] \<rparr>)
     = Some (example_command PANEL_COMMAND 100,
         init_DGLabController\<lparr> enable_panel_commands := False,
           command_sources := [''s'' \<mapsto> 100.5] \<rparr>)
   \<and> process_command listed_rank 100.6
        (add_command ''u'' 100.55 100.55 TON_COMMAND Channel_A SET_TO 5 (Some ''s'')
          (init_DGLabController\<lparr> enable_panel_commands := False,
             command_sources := [''s'' \<mapsto> 100.5] \<rparr>))
     = Some (example_command TON_COMMAND 100.55,
         init_DGLabController\<lparr> enable_panel_commands := False,
           command_sources := [''s'' \<mapsto> 100.5, ''TON_COMMAND_s'' \<mapsto> 100.55] \<rparr>)"
proof -
  let ?s = "init_DGLabController\<lparr> enable_panel_commands := False,
          command_queue := [example_command PANEL_COMMAND 100] \<rparr>"
  let ?c = "example_command PANEL_COMMAND 100"
  let ?s1 = "init_DGLabController\<lparr> enable_panel_commands := False,
           command_sources := [''s'' \<mapsto> 100.5] \<rparr>"
  let ?s2 = "add_command ''u'' 100.55 100.55 TON_COMMAND Channel_A SET_TO 5 (Some ''s'') ?s1"
  let ?d = "example_command TON_COMMAND 100.55"
  have taken: "get listed_rank (command_queue ?s) = Some (?c, [])"
    by (simp add: get_def)
  have fresh: "\<not> 100.5 - (case command_sources ?s (source_id ?c) of None \<Rightarrow> 0 | Some t \<Rightarrow> t)
                   < source_cooldowns (command_type ?c)"
    by (simp add: init_DGLabController_def example_command_def)
  have off: "(command_type ?c = GUI_COMMAND \<and> \<not> enable_gui_commands ?s)
        \<or> (command_type ?c = PANEL_COMMAND \<and> \<not> enable_panel_commands ?s)
        \<or> (command_type ?c = INTERACTION_COMMAND
             \<and> (\<not> enable_interaction_commands ?s
                  \<or> \<not> ((channel ?c = Channel_A \<and> enable_interaction_mode_a ?s)
                         \<or> (channel ?c = Channel_B \<and> enable_interaction_mode_b ?s))))"
    by (simp add: example_command_def)
  have s1: "?s\<lparr> command_queue := [],
              command_sources := (command_sources ?s)(source_id ?c \<mapsto> 100.5) \<rparr> = ?s1"
    by (simp add: init_DGLabController_def example_command_def)
  have sid: "Some (source_id ?c) = Some ''s''" by (simp add: example_command_def)
  have s2: "?s2 = init_DGLabController\<lparr> enable_panel_commands := False,
           command_sources := [''s'' \<mapsto> 100.5, ''TON_COMMAND_s'' \<mapsto> 100.55],
           command_queue := [?d] \<rparr>"
    by (simp add: add_command_def Let_def put_def new_ChannelCommand_def source_key_def
        init_DGLabController_def example_command_def)
  have g2: "get listed_rank (command_queue ?s2) = Some (?d, [])"
    unfolding s2 by (simp add: get_def)
  have near: "source_id ?d = source_id ?c
      \<and> (100.6::real) - 100.5 < source_cooldowns (command_type ?d)"
    by (simp add: example_command_def)
  from dropped_command_refreshes_source_entry [OF taken fresh off, unfolded s1]
  obtain r where r1: "process_command listed_rank 100.5 ?s = Some (?c, r)"
    and r2: "r = ?s1"
    and r3: "\<forall>uid clock now ct ch opr v d q2 t2.
        command_sources
          (add_command uid clock now ct ch opr v (Some (source_id ?c)) r) (source_id ?c)
          = Some 100.5
        \<and> (get listed_rank (command_queue
            (add_command uid clock now ct ch opr v (Some (source_id ?c)) r)) = Some (d, q2)
           \<and> source_id d = source_id ?c
           \<and> t2 - 100.5 < source_cooldowns (command_type d)
           \<longrightarrow> process_command listed_rank t2
              (add_command uid clock now ct ch opr v (Some (source_id ?c)) r)
            = Some (d, (add_command uid clock now ct ch opr v (Some (source_id ?c)) r)
                         \<lparr> command_queue := q2 \<rparr>))"
    by (elim exE conjE)
  have "process_command listed_rank 100.6 ?s2 = Some (?d, ?s2\<lparr> command_queue := [] \<rparr>)"
    using r3 [rule_format, of "''u''" "100.55" "100.55" TON_COMMAND Channel_A SET_TO 5 ?d "[]"
                "100.6", THEN conjunct2, THEN mp]
      g2 near unfolding r2 sid by simp
  then show ?thesis using r1 r2 unfolding s2 by (simp add: init_DGLabController_def)
qed

end
